theory Spec2Isabelle
  imports Main
begin

section \<open>Student directory service (app.py)\<close>

text \<open>
  The program is a set of five request handlers over one relational table,
  \<^verbatim>\<open>students(id PK, first_name, last_name, email UNIQUE, dob NULLABLE)\<close>.
  The handlers are embedded as functions that take the table and return the response
  together with the table after the request. An exception raised in a handler is a
  value of the response type.
\<close>

subsection \<open>Data model\<close>

text \<open>\<^verbatim>\<open>datetime.date\<close>: a calendar date, only stored and returned by the handlers.\<close>

datatype date = Date int int int

text \<open>
  The pydantic schema \<^verbatim>\<open>StudentCreate\<close> (the validated payload of Create and Update):
  \<^verbatim>\<open>
  class StudentCreate(BaseModel):
      first_name: str
      last_name: str
      email: EmailStr
      dob: Optional[date] = None
  \<close>
\<close>

record StudentCreate =
  first_name :: string
  last_name :: string
  email :: string
  dob :: "date option"

text \<open>
  A row of the table, class \<^verbatim>\<open>StudentModel\<close>; the schema \<^verbatim>\<open>StudentRead\<close>
  (\<^verbatim>\<open>StudentCreate\<close> plus \<^verbatim>\<open>id: int\<close>, read from a row in \<^verbatim>\<open>orm_mode\<close>) has the
  same fields. The primary key column \<^verbatim>\<open>id\<close> is named \<open>id_pk\<close> here, since \<open>id\<close> is
  the identity function of HOL. A key is an \<open>int\<close>, as the \<^verbatim>\<open>student_id: int\<close> of the
  handlers is: Python's \<^verbatim>\<open>int\<close> is unbounded.
\<close>

record StudentModel = StudentCreate +
  id_pk :: int

text \<open>The table: its rows in the order of insertion.\<close>

type_synonym db = "StudentModel list"

text \<open>
  What a handler can raise. \<^verbatim>\<open>HTTPException(status_code, detail)\<close> is raised by the
  handlers themselves. \<open>IntegrityError\<close> is what \<^verbatim>\<open>db.commit()\<close> raises when a
  statement violates a constraint of the table, \<open>OverflowError\<close> what \<^verbatim>\<open>db.get\<close> raises
  for a key that does not fit the key column, and \<open>InvalidRequestError\<close> what
  \<^verbatim>\<open>db.refresh\<close> raises when the row is gone; no handler catches any of the three.
\<close>

datatype error =
    HTTPException nat string
  | IntegrityError
  | OverflowError
  | InvalidRequestError

text \<open>
  A response: the value returned by the handler with the status code of the route's
  decorator, or the exception raised.
\<close>

datatype 'a response = Response nat 'a | Raised error

text \<open>
  The status code the client sees. An \<^verbatim>\<open>HTTPException\<close> carries its own, and an
  exception that nothing handles is answered with 500.
\<close>

fun error_status :: "error \<Rightarrow> nat" where
  "error_status (HTTPException c d) = c"
| "error_status IntegrityError = 500"
| "error_status OverflowError = 500"
| "error_status InvalidRequestError = 500"

fun status :: "'a response \<Rightarrow> nat" where
  "status (Response c v) = c"
| "status (Raised e) = error_status e"

subsection \<open>The session's operations on the table\<close>

text \<open>
  \<^verbatim>\<open>db.query(StudentModel).filter(StudentModel.email == e).first()\<close>: the first row
  whose email is the string \<open>e\<close> (the column has the default, binary collation).
\<close>

definition query_filter_email_first :: "db \<Rightarrow> string \<Rightarrow> StudentModel option" where
  "query_filter_email_first d e = find (\<lambda>r. email r = e) d"

text \<open>The SELECT by primary key that \<^verbatim>\<open>db.get\<close> and \<^verbatim>\<open>db.refresh\<close> issue.\<close>

definition select_by_id :: "db \<Rightarrow> int \<Rightarrow> StudentModel option" where
  "select_by_id d i = find (\<lambda>r. id_pk r = i) d"

text \<open>
  The key column is an INTEGER of the database, a signed 64-bit number: these are the
  keys that can be bound to a statement.
\<close>

definition sqlite_integer :: "int \<Rightarrow> bool" where
  "sqlite_integer i \<longleftrightarrow> - 9223372036854775808 \<le> i \<and> i \<le> 9223372036854775807"

text \<open>
  \<^verbatim>\<open>db.get(StudentModel, student_id)\<close>: the row with this primary key, or \<^verbatim>\<open>None\<close>.
  The \<^verbatim>\<open>student_id\<close> comes from the URL and may be any integer; for one outside the
  64-bit range the driver raises \<^verbatim>\<open>OverflowError\<close> instead of running the SELECT. The
  keys of the rows of a table of the database are inside the range, so there the test
  of the range and the lookup can be made in either order; the model looks up first, and
  so finds every key that a row has.
\<close>

definition db_get :: "db \<Rightarrow> int \<Rightarrow> error + StudentModel option" where
  "db_get d i =
     (case select_by_id d i of
        Some r \<Rightarrow> Inr (Some r)
      | None \<Rightarrow> if sqlite_integer i then Inr None else Inl OverflowError)"

text \<open>
  \<^verbatim>\<open>db.refresh(student)\<close>: the row is read again under the key the object has, which
  is the key of a row of the table; \<^verbatim>\<open>InvalidRequestError\<close> when it is not there.
\<close>

definition db_refresh :: "db \<Rightarrow> int \<Rightarrow> error + StudentModel" where
  "db_refresh d i =
     (case select_by_id d i of
        None \<Rightarrow> Inl InvalidRequestError
      | Some r \<Rightarrow> Inr r)"

text \<open>
  The key of a new row. \<^verbatim>\<open>id = Column(Integer, primary_key=True)\<close> is an alias of the
  row id of the table: 1 in an empty table, otherwise one more than the largest key in
  use.
\<close>

fun next_rowid :: "db \<Rightarrow> int" where
  "next_rowid [] = 1"
| "next_rowid (r # rs) = fold max (map id_pk rs) (id_pk r) + 1"

text \<open>
  \<^verbatim>\<open>db.add(student); db.commit()\<close>: the INSERT. The column \<^verbatim>\<open>email\<close> is declared
  \<^verbatim>\<open>unique=True\<close>, so the statement fails when a row has the email already; otherwise
  the row is stored under a new key, which is returned.
\<close>

definition db_insert :: "db \<Rightarrow> StudentCreate \<Rightarrow> error + (db \<times> int)" where
  "db_insert d p =
     (if email p \<in> set (map email d) then Inl IntegrityError
      else Inr (d @ [\<lparr>first_name = first_name p, last_name = last_name p,
                      email = email p, dob = dob p, id_pk = next_rowid d\<rparr>],
                next_rowid d))"

text \<open>
  The four assignments to the attributes of the loaded row and \<^verbatim>\<open>db.commit()\<close>: an
  UPDATE of the rows whose key is \<open>i\<close>. It fails, by \<^verbatim>\<open>unique=True\<close>, when a row with
  another key has the new email.
\<close>

definition db_update :: "db \<Rightarrow> int \<Rightarrow> StudentCreate \<Rightarrow> error + db" where
  "db_update d i p =
     (if email p \<in> set (map email (filter (\<lambda>r. id_pk r \<noteq> i) d)) then Inl IntegrityError
      else Inr (map (\<lambda>r. if id_pk r = i
                          then r\<lparr>first_name := first_name p, last_name := last_name p,
                                 email := email p, dob := dob p\<rparr>
                          else r) d))"

text \<open>\<^verbatim>\<open>db.delete(student); db.commit()\<close>: a DELETE of the rows whose key is \<open>i\<close>.\<close>

definition db_delete :: "db \<Rightarrow> int \<Rightarrow> db" where
  "db_delete d i = filter (\<lambda>r. id_pk r \<noteq> i) d"

subsection \<open>The handlers\<close>

text \<open>
  \<^verbatim>\<open>
  @app.post("/students", response_model=StudentRead, status_code=201)
  def create_student(payload, db):
      exists = db.query(StudentModel).filter(StudentModel.email == payload.email).first()
      if exists:
          raise HTTPException(status_code=400, detail="Email already registered")
      student = StudentModel(first_name=..., last_name=..., email=..., dob=...)
      db.add(student)
      db.commit()
      db.refresh(student)
      return student
  \<close>
  A session that raises before the commit is closed by \<^verbatim>\<open>get_db\<close> without one, so the
  table is then as before.
\<close>

definition create_student :: "StudentCreate \<Rightarrow> db \<Rightarrow> StudentModel response \<times> db" where
  "create_student payload d =
     (case query_filter_email_first d (email payload) of
        Some exists \<Rightarrow> (Raised (HTTPException 400 ''Email already registered''), d)
      | None \<Rightarrow>
          (case db_insert d payload of
             Inl e \<Rightarrow> (Raised e, d)
           | Inr (d', i) \<Rightarrow>
               (case db_refresh d' i of
                  Inl e \<Rightarrow> (Raised e, d')
                | Inr student \<Rightarrow> (Response 201 student, d'))))"

text \<open>
  \<^verbatim>\<open>
  @app.get("/students", response_model=List[StudentRead])
  def list_students(db):
      students = db.query(StudentModel).all()
      return students
  \<close>
\<close>

definition list_students :: "db \<Rightarrow> StudentModel list response \<times> db" where
  "list_students d = (Response 200 d, d)"

text \<open>
  \<^verbatim>\<open>
  @app.get("/students/{student_id}", response_model=StudentRead)
  def get_student(student_id, db):
      student = db.get(StudentModel, student_id)
      if not student:
          raise HTTPException(status_code=404, detail="Student not found")
      return student
  \<close>
\<close>

definition get_student :: "int \<Rightarrow> db \<Rightarrow> StudentModel response \<times> db" where
  "get_student student_id d =
     (case db_get d student_id of
        Inl e \<Rightarrow> (Raised e, d)
      | Inr None \<Rightarrow> (Raised (HTTPException 404 ''Student not found''), d)
      | Inr (Some student) \<Rightarrow> (Response 200 student, d))"

text \<open>
  \<^verbatim>\<open>
  @app.put("/students/{student_id}", response_model=StudentRead)
  def update_student(student_id, payload, db):
      student = db.get(StudentModel, student_id)
      if not student:
          raise HTTPException(status_code=404, detail="Student not found")
      student.first_name = payload.first_name
      student.last_name = payload.last_name
      student.email = payload.email
      student.dob = payload.dob
      db.commit()
      db.refresh(student)
      return student
  \<close>
\<close>

definition update_student :: "int \<Rightarrow> StudentCreate \<Rightarrow> db \<Rightarrow> StudentModel response \<times> db" where
  "update_student student_id payload d =
     (case db_get d student_id of
        Inl e \<Rightarrow> (Raised e, d)
      | Inr None \<Rightarrow> (Raised (HTTPException 404 ''Student not found''), d)
      | Inr (Some student) \<Rightarrow>
          (case db_update d student_id payload of
             Inl e \<Rightarrow> (Raised e, d)
           | Inr d' \<Rightarrow>
               (case db_refresh d' student_id of
                  Inl e \<Rightarrow> (Raised e, d')
                | Inr student' \<Rightarrow> (Response 200 student', d'))))"

text \<open>
  \<^verbatim>\<open>
  @app.delete("/students/{student_id}", status_code=204)
  def delete_student(student_id, db):
      student = db.get(StudentModel, student_id)
      if not student:
          raise HTTPException(status_code=404, detail="Student not found")
      db.delete(student)
      db.commit()
      return None
  \<close>
\<close>

definition delete_student :: "int \<Rightarrow> db \<Rightarrow> unit response \<times> db" where
  "delete_student student_id d =
     (case db_get d student_id of
        Inl e \<Rightarrow> (Raised e, d)
      | Inr None \<Rightarrow> (Raised (HTTPException 404 ''Student not found''), d)
      | Inr (Some student) \<Rightarrow> (Response 204 (), db_delete d student_id))"

subsection \<open>Sequences of requests\<close>

text \<open>
  Each request runs against the table the one before it left. The reachable tables are
  those that a sequence of requests produces from the empty table.
\<close>

datatype request =
    Create StudentCreate
  | List
  | Get int
  | Update int StudentCreate
  | Delete int

fun step :: "request \<Rightarrow> db \<Rightarrow> db" where
  "step (Create payload) d = snd (create_student payload d)"
| "step List d = snd (list_students d)"
| "step (Get i) d = snd (get_student i d)"
| "step (Update i payload) d = snd (update_student i payload d)"
| "step (Delete i) d = snd (delete_student i d)"

definition run :: "request list \<Rightarrow> db \<Rightarrow> db" where
  "run rs d = fold step rs d"

subsection \<open>Example data\<close>

text \<open>Two payloads for the concrete instances of the properties below.\<close>

definition ada :: StudentCreate where
  "ada = \<lparr>first_name = ''Ada'', last_name = ''Lovelace'', email = ''ada@example.com'',
           dob = None\<rparr>"

definition grace :: StudentCreate where
  "grace = \<lparr>first_name = ''Grace'', last_name = ''Hopper'', email = ''grace@example.com'',
             dob = Some (Date 1906 12 9)\<rparr>"

section \<open>Properties\<close>

lemmas session_defs =
  query_filter_email_first_def select_by_id_def sqlite_integer_def db_get_def db_refresh_def
  db_insert_def db_update_def db_delete_def

lemmas handler_defs =
  create_student_def list_students_def get_student_def update_student_def delete_student_def

subsection \<open>Lookups\<close>

lemma select_by_id_None: "select_by_id d i = None \<longleftrightarrow> i \<notin> set (map id_pk d)"
  by (induction d) (auto simp: select_by_id_def)

lemma select_by_id_Some: "select_by_id d i = Some r \<Longrightarrow> r \<in> set d \<and> id_pk r = i"
  by (auto simp: select_by_id_def find_Some_iff)

lemma select_by_id_distinct:
  "distinct (map id_pk d) \<Longrightarrow> r \<in> set d \<Longrightarrow> select_by_id d (id_pk r) = Some r"
  by (induction d) (auto simp: select_by_id_def)

lemma db_get_found: "select_by_id d i = Some r \<Longrightarrow> db_get d i = Inr (Some r)"
  by (simp add: db_get_def)


lemma db_get_overflow:
  "select_by_id d i = None \<Longrightarrow> \<not> sqlite_integer i \<Longrightarrow> db_get d i = Inl OverflowError"
  by (simp add: db_get_def)

lemma db_refresh_found: "select_by_id d i = Some r \<Longrightarrow> db_refresh d i = Inr r"
  by (simp add: db_refresh_def)

lemma get_student_found:
  "select_by_id d i = Some r \<Longrightarrow> get_student i d = (Response 200 r, d)"
  by (simp add: get_student_def db_get_found)

lemma query_email_None:
  "query_filter_email_first d e = None \<longleftrightarrow> e \<notin> set (map email d)"
  by (induction d) (auto simp: query_filter_email_first_def)

lemma fold_max_ge: "(a::int) \<le> fold max xs a"
  by (induction xs arbitrary: a) (auto intro: order_trans [OF max.cobounded2])

lemma fold_max_mem: "(x::int) \<in> set xs \<Longrightarrow> x \<le> fold max xs a"
proof (induction xs arbitrary: a)
  case Nil
  then show ?case by simp
next
  case (Cons y ys)
  show ?case
  proof (cases "x = y")
    case True
    have "x \<le> max y a" using True by simp
    also have "\<dots> \<le> fold max ys (max y a)" by (rule fold_max_ge)
    finally show ?thesis by simp
  next
    case False
    with Cons show ?thesis by simp
  qed
qed

lemma next_rowid_fresh: "r \<in> set d \<Longrightarrow> id_pk r < next_rowid d"
proof (cases d)
  case Nil
  assume "r \<in> set d"
  with Nil show ?thesis by simp
next
  case (Cons q qs)
  assume "r \<in> set d"
  with Cons have "r = q \<or> r \<in> set qs" by simp
  then have "id_pk r \<le> fold max (map id_pk qs) (id_pk q)"
  proof
    assume "r = q"
    then show ?thesis by (simp add: fold_max_ge)
  next
    assume "r \<in> set qs"
    then have "id_pk r \<in> set (map id_pk qs)" by simp
    then show ?thesis by (rule fold_max_mem)
  qed
  with Cons show ?thesis by simp
qed

lemma next_rowid_notin: "next_rowid d \<notin> set (map id_pk d)"
  using next_rowid_fresh by fastforce

lemma select_by_id_append_new:
  "i \<notin> set (map id_pk d) \<Longrightarrow> id_pk r = i \<Longrightarrow> select_by_id (d @ [r]) i = Some r"
  by (induction d) (auto simp: select_by_id_def)

subsection \<open>What each handler does to the table\<close>

lemma create_student_new:
  assumes "email p \<notin> set (map email d)"
  shows "create_student p d =
           (Response 201 \<lparr>first_name = first_name p, last_name = last_name p,
                           email = email p, dob = dob p, id_pk = next_rowid d\<rparr>,
            d @ [\<lparr>first_name = first_name p, last_name = last_name p,
                   email = email p, dob = dob p, id_pk = next_rowid d\<rparr>])"
proof -
  let ?s = "\<lparr>first_name = first_name p, last_name = last_name p,
             email = email p, dob = dob p, id_pk = next_rowid d\<rparr>"
  from assms have q: "query_filter_email_first d (email p) = None"
    by (simp add: query_email_None)
  from assms have ins: "db_insert d p = Inr (d @ [?s], next_rowid d)"
    by (simp add: db_insert_def)
  have g: "select_by_id (d @ [?s]) (next_rowid d) = Some ?s"
    using next_rowid_notin [of d] by (intro select_by_id_append_new) simp_all
  show ?thesis
    by (simp add: create_student_def q ins db_refresh_found [OF g])
qed

lemma create_student_dup:
  assumes "email p \<in> set (map email d)"
  shows "create_student p d = (Raised (HTTPException 400 ''Email already registered''), d)"
proof -
  from assms have "query_filter_email_first d (email p) \<noteq> None"
    by (simp add: query_email_None)
  then obtain x where "query_filter_email_first d (email p) = Some x"
    by blast
  then show ?thesis
    by (simp add: create_student_def)
qed

lemma select_by_id_map:
  assumes "\<And>r. id_pk (f r) = id_pk r"
  shows "select_by_id (map f d) i = map_option f (select_by_id d i)"
  using assms by (induction d) (auto simp: select_by_id_def)


lemma select_by_id_delete_other: "j \<noteq> i \<Longrightarrow> select_by_id (db_delete d i) j = select_by_id d j"
  by (induction d) (auto simp: select_by_id_def db_delete_def)

lemma delete_student_found:
  assumes "i \<in> set (map id_pk d)"
  shows "delete_student i d = (Response 204 (), db_delete d i)"
proof -
  from assms have "select_by_id d i \<noteq> None"
    by (simp add: select_by_id_None)
  then obtain x where "select_by_id d i = Some x"
    by blast
  then show ?thesis
    by (simp add: delete_student_def db_get_found)
qed


lemma update_student_ok:
  assumes "select_by_id d i = Some r"
    and "email p \<notin> set (map email (filter (\<lambda>q. id_pk q \<noteq> i) d))"
  shows "update_student i p d =
           (Response 200 (r\<lparr>first_name := first_name p, last_name := last_name p,
                            email := email p, dob := dob p\<rparr>),
            map (\<lambda>q. if id_pk q = i
                      then q\<lparr>first_name := first_name p, last_name := last_name p,
                             email := email p, dob := dob p\<rparr>
                      else q) d)"
proof -
  let ?f = "\<lambda>q. if id_pk q = i
                 then q\<lparr>first_name := first_name p, last_name := last_name p,
                        email := email p, dob := dob p\<rparr>
                 else q"
  from assms(2) have u: "db_update d i p = Inr (map ?f d)"
    by (simp add: db_update_def)
  have "select_by_id (map ?f d) i = map_option ?f (select_by_id d i)"
    by (rule select_by_id_map) simp
  moreover from assms(1) have "id_pk r = i"
    by (simp add: select_by_id_Some)
  ultimately have g: "select_by_id (map ?f d) i =
      Some (r\<lparr>first_name := first_name p, last_name := last_name p,
               email := email p, dob := dob p\<rparr>)"
    using assms(1) by simp
  show ?thesis
    by (simp add: update_student_def db_get_found [OF assms(1)] u db_refresh_found [OF g])
qed

lemma update_student_dup:
  assumes "select_by_id d i = Some r"
    and "email p \<in> set (map email (filter (\<lambda>q. id_pk q \<noteq> i) d))"
  shows "update_student i p d = (Raised IntegrityError, d)"
  using assms by (simp add: update_student_def db_update_def db_get_found)

subsection \<open>Create and Get\<close>

text \<open>
  C2. For every table and every payload whose email no stored row has, Create answers
  201 with a row that carries the payload's fields and the key the table assigned, and
  Get of that key on the table after the Create answers with the same row.
\<close>

theorem create_new_email_then_get:
  assumes "\<forall>r\<in>set d. email r \<noteq> email payload"
  shows "\<exists>student d'.
           create_student payload d = (Response 201 student, d')
         \<and> status (fst (create_student payload d)) = 201
         \<and> id_pk student = next_rowid d
         \<and> first_name student = first_name payload
         \<and> last_name student = last_name payload
         \<and> email student = email payload
         \<and> dob student = dob payload
         \<and> get_student (id_pk student) d' = (Response 200 student, d')"
proof -
  let ?s = "\<lparr>first_name = first_name payload, last_name = last_name payload,
             email = email payload, dob = dob payload, id_pk = next_rowid d\<rparr>"
  from assms have new: "email payload \<notin> set (map email d)"
    by auto
  then have c: "create_student payload d = (Response 201 ?s, d @ [?s])"
    by (rule create_student_new)
  have "select_by_id (d @ [?s]) (next_rowid d) = Some ?s"
    using next_rowid_notin [of d] by (intro select_by_id_append_new) simp_all
  from get_student_found [OF this]
  have "get_student (id_pk ?s) (d @ [?s]) = (Response 200 ?s, d @ [?s])"
    by simp
  with c show ?thesis
    by simp
qed

theorem create_new_email_then_get_witness:
  "email grace \<notin> set (map email (run [Create ada] []))
   \<and> (\<exists>student d'.
           create_student grace (run [Create ada] []) = (Response 201 student, d')
         \<and> id_pk student = 2
         \<and> first_name student = ''Grace''
         \<and> get_student 2 d' = (Response 200 student, d'))"
proof -
  have h: "\<forall>r\<in>set (run [Create ada] []). email r \<noteq> email grace"
    by (simp add: run_def handler_defs session_defs ada_def grace_def)
  have n: "next_rowid (run [Create ada] []) = 2"
    by (simp add: run_def handler_defs session_defs ada_def)
  have f: "first_name grace = ''Grace''"
    by (simp add: grace_def)
  from create_new_email_then_get [OF h] n f show ?thesis
    using h by auto
qed

text \<open>
  C3. When a stored row has the payload's email, Create raises
  \<^verbatim>\<open>HTTPException(400, "Email already registered")\<close>, answered with status 400, and the
  table after the request is the table before it.
\<close>

theorem create_existing_email_conflict:
  assumes "r \<in> set d" and "email r = email payload"
  shows "create_student payload d =
           (Raised (HTTPException 400 ''Email already registered''), d)
       \<and> status (fst (create_student payload d)) = 400
       \<and> snd (create_student payload d) = d"
proof -
  from assms have "email payload \<in> set (map email d)"
    by force
  then have "create_student payload d =
      (Raised (HTTPException 400 ''Email already registered''), d)"
    by (rule create_student_dup)
  then show ?thesis
    by simp
qed

theorem create_existing_email_conflict_witness:
  "create_student (grace\<lparr>email := ''ada@example.com''\<rparr>) (run [Create ada] []) =
     (Raised (HTTPException 400 ''Email already registered''), run [Create ada] [])"
proof -
  let ?r = "\<lparr>first_name = ''Ada'', last_name = ''Lovelace'', email = ''ada@example.com'',
             dob = None, id_pk = 1\<rparr>"
  have m: "?r \<in> set (run [Create ada] [])"
    by (simp add: run_def handler_defs session_defs ada_def)
  have e: "email ?r = email (grace\<lparr>email := ''ada@example.com''\<rparr>)"
    by simp
  from create_existing_email_conflict [OF m e] show ?thesis
    by simp
qed

subsection \<open>Requests for a key that is not stored\<close>




subsection \<open>Update\<close>

text \<open>
  C5, as the code has it. When a row has the key \<open>i\<close> and no row with another key has
  the payload's email, Update answers 200 with a row that has the key \<open>i\<close> and exactly
  the payload's four fields, and Get of \<open>i\<close> on the resulting table returns that row.
\<close>

theorem update_replaces_fields:
  assumes "r \<in> set d" and "id_pk r = i"
    and "\<forall>q\<in>set d. id_pk q \<noteq> i \<longrightarrow> email q \<noteq> email payload"
  shows "\<exists>student d'.
           update_student i payload d = (Response 200 student, d')
         \<and> status (fst (update_student i payload d)) = 200
         \<and> id_pk student = i
         \<and> first_name student = first_name payload
         \<and> last_name student = last_name payload
         \<and> email student = email payload
         \<and> dob student = dob payload
         \<and> get_student i d' = (Response 200 student, d')"
proof -
  let ?f = "\<lambda>q. if id_pk q = i
                 then q\<lparr>first_name := first_name payload, last_name := last_name payload,
                        email := email payload, dob := dob payload\<rparr>
                 else q"
  from assms(1,2) have "select_by_id d i \<noteq> None"
    by (auto simp: select_by_id_None)
  then obtain x where x: "select_by_id d i = Some x"
    by blast
  then have xi: "id_pk x = i"
    by (simp add: select_by_id_Some)
  from assms(3) have free: "email payload \<notin> set (map email (filter (\<lambda>q. id_pk q \<noteq> i) d))"
    by auto
  let ?s = "x\<lparr>first_name := first_name payload, last_name := last_name payload,
               email := email payload, dob := dob payload\<rparr>"
  from x free have u: "update_student i payload d = (Response 200 ?s, map ?f d)"
    by (rule update_student_ok)
  have "select_by_id (map ?f d) i = map_option ?f (select_by_id d i)"
    by (rule select_by_id_map) simp
  with x xi have "select_by_id (map ?f d) i = Some ?s"
    by simp
  then have "get_student i (map ?f d) = (Response 200 ?s, map ?f d)"
    by (rule get_student_found)
  with u xi show ?thesis
    by simp
qed

theorem update_replaces_fields_witness:
  "update_student 1 (ada\<lparr>dob := Some (Date 1815 12 10)\<rparr>) (run [Create ada, Create grace] []) =
     (Response 200 \<lparr>first_name = ''Ada'', last_name = ''Lovelace'',
                     email = ''ada@example.com'', dob = Some (Date 1815 12 10), id_pk = 1\<rparr>,
      [\<lparr>first_name = ''Ada'', last_name = ''Lovelace'',
         email = ''ada@example.com'', dob = Some (Date 1815 12 10), id_pk = 1\<rparr>,
       \<lparr>first_name = ''Grace'', last_name = ''Hopper'',
         email = ''grace@example.com'', dob = Some (Date 1906 12 9), id_pk = 2\<rparr>])"
proof -
  let ?d = "run [Create ada, Create grace] []"
  let ?r = "\<lparr>first_name = ''Ada'', last_name = ''Lovelace'', email = ''ada@example.com'',
             dob = None, id_pk = 1\<rparr>"
  have d: "?d = [?r, \<lparr>first_name = ''Grace'', last_name = ''Hopper'',
         email = ''grace@example.com'', dob = Some (Date 1906 12 9), id_pk = 2\<rparr>]"
    by (simp add: run_def handler_defs session_defs ada_def grace_def)
  have m: "?r \<in> set ?d"
    by (simp add: d)
  have k: "id_pk ?r = 1"
    by simp
  have h: "\<forall>q\<in>set ?d. id_pk q \<noteq> 1 \<longrightarrow> email q \<noteq> email (ada\<lparr>dob := Some (Date 1815 12 10)\<rparr>)"
    unfolding d by (simp add: ada_def)
  from update_replaces_fields [OF m k h]
  obtain student d' where
    u: "update_student 1 (ada\<lparr>dob := Some (Date 1815 12 10)\<rparr>) ?d = (Response 200 student, d')"
    by blast
  have "update_student 1 (ada\<lparr>dob := Some (Date 1815 12 10)\<rparr>) ?d =
     (Response 200 \<lparr>first_name = ''Ada'', last_name = ''Lovelace'',
                     email = ''ada@example.com'', dob = Some (Date 1815 12 10), id_pk = 1\<rparr>,
      [\<lparr>first_name = ''Ada'', last_name = ''Lovelace'',
         email = ''ada@example.com'', dob = Some (Date 1815 12 10), id_pk = 1\<rparr>,
       \<lparr>first_name = ''Grace'', last_name = ''Hopper'',
         email = ''grace@example.com'', dob = Some (Date 1906 12 9), id_pk = 2\<rparr>])"
    unfolding d by (simp add: update_student_def session_defs ada_def)
  then show ?thesis .
qed

text \<open>
  C5 without the condition on the email fails: Ada's row cannot take the email
  of Grace's row. The UPDATE violates \<^verbatim>\<open>unique=True\<close>, \<^verbatim>\<open>db.commit()\<close> raises, and
  the request is answered with 500.
\<close>

theorem update_duplicate_email_counterexample:
  "update_student 1 (ada\<lparr>email := ''grace@example.com''\<rparr>) (run [Create ada, Create grace] []) =
     (Raised IntegrityError, run [Create ada, Create grace] [])
   \<and> db_get (run [Create ada, Create grace] []) 1 =
       Inr (Some \<lparr>first_name = ''Ada'', last_name = ''Lovelace'', email = ''ada@example.com'',
                   dob = None, id_pk = 1\<rparr>)
   \<and> status (fst (update_student 1 (ada\<lparr>email := ''grace@example.com''\<rparr>)
                     (run [Create ada, Create grace] []))) = 500"
  by (simp add: run_def handler_defs session_defs ada_def grace_def)

subsection \<open>Delete\<close>



lemma length_filter_other_key:
  assumes "distinct (map id_pk d)" and "r \<in> set d"
  shows "length (filter (\<lambda>q. id_pk q \<noteq> id_pk r) d) + 1 = length d"
  using assms
proof (induction d)
  case Nil
  then show ?case by simp
next
  case (Cons x xs)
  show ?case
  proof (cases "id_pk x = id_pk r")
    case True
    with Cons.prems have "id_pk r \<notin> set (map id_pk xs)"
      by simp
    then have "\<forall>q\<in>set xs. id_pk q \<noteq> id_pk r"
      by (metis image_eqI set_map)
    then have "filter (\<lambda>q. id_pk q \<noteq> id_pk r) xs = xs"
      by simp
    with True show ?thesis
      by simp
  next
    case False
    with Cons.prems have "r \<in> set xs" and "distinct (map id_pk xs)"
      by auto
    with Cons.IH False show ?thesis
      by simp
  qed
qed

text \<open>
  C7. When a row has the key \<open>i\<close>, Delete of \<open>i\<close> answers 204 with no body. The
  resulting table is the one before without the rows of key \<open>i\<close>: the rows with
  another key are those of before, in their order, and a lookup of another key finds
  what it found before. Where the keys are distinct, one row is gone.
\<close>

theorem delete_removes_exactly:
  assumes "r \<in> set d" and "id_pk r = i"
  shows "\<exists>d'. delete_student i d = (Response 204 (), d')
             \<and> status (fst (delete_student i d)) = 204
             \<and> d' = filter (\<lambda>q. id_pk q \<noteq> i) d
             \<and> (\<forall>q. q \<in> set d' \<longleftrightarrow> q \<in> set d \<and> id_pk q \<noteq> i)
             \<and> (\<forall>j. j \<noteq> i \<longrightarrow> fst (get_student j d') = fst (get_student j d))
             \<and> (distinct (map id_pk d) \<longrightarrow> length d' + 1 = length d)"
proof -
  from assms have "i \<in> set (map id_pk d)"
    by force
  then have del: "delete_student i d = (Response 204 (), db_delete d i)"
    by (rule delete_student_found)
  have others: "\<forall>j. j \<noteq> i \<longrightarrow> fst (get_student j (db_delete d i)) = fst (get_student j d)"
    by (simp add: get_student_def db_get_def select_by_id_delete_other split: option.splits)
  have len: "distinct (map id_pk d) \<longrightarrow> length (db_delete d i) + 1 = length d"
    using length_filter_other_key [of d r] assms by (simp add: db_delete_def)
  have mem: "\<forall>q. q \<in> set (db_delete d i) \<longleftrightarrow> q \<in> set d \<and> id_pk q \<noteq> i"
    by (simp add: db_delete_def)
  have flt: "db_delete d i = filter (\<lambda>q. id_pk q \<noteq> i) d"
    by (simp add: db_delete_def)
  from del others len mem flt show ?thesis
    by simp
qed

theorem delete_removes_exactly_witness:
  "delete_student 2 (run [Create ada, Create grace] []) =
     (Response 204 (), [\<lparr>first_name = ''Ada'', last_name = ''Lovelace'',
                          email = ''ada@example.com'', dob = None, id_pk = 1\<rparr>])
   \<and> fst (get_student 1 (snd (delete_student 2 (run [Create ada, Create grace] [])))) =
     fst (get_student 1 (run [Create ada, Create grace] []))"
proof -
  let ?d = "run [Create ada, Create grace] []"
  let ?r = "\<lparr>first_name = ''Grace'', last_name = ''Hopper'',
         email = ''grace@example.com'', dob = Some (Date 1906 12 9), id_pk = 2\<rparr>"
  have d: "?d = [\<lparr>first_name = ''Ada'', last_name = ''Lovelace'', email = ''ada@example.com'',
             dob = None, id_pk = 1\<rparr>, ?r]"
    by (simp add: run_def handler_defs session_defs ada_def grace_def)
  have m: "?r \<in> set ?d"
    by (simp add: d)
  have k: "id_pk ?r = 2"
    by simp
  from delete_removes_exactly [OF m k]
  obtain d' where x: "delete_student 2 ?d = (Response 204 (), d')"
    and y: "d' = filter (\<lambda>q. id_pk q \<noteq> 2) ?d"
    and z: "\<forall>j. j \<noteq> 2 \<longrightarrow> fst (get_student j d') = fst (get_student j ?d)"
    by blast
  from y have "d' = [\<lparr>first_name = ''Ada'', last_name = ''Lovelace'',
                          email = ''ada@example.com'', dob = None, id_pk = 1\<rparr>]"
    by (simp add: d)
  moreover from z have "fst (get_student 1 d') = fst (get_student 1 ?d)"
    by simp
  ultimately show ?thesis
    using x by simp
qed

subsection \<open>The constraints of the table\<close>

lemma snd_create_student:
  "snd (create_student p d) =
     (if email p \<in> set (map email d) then d
      else d @ [\<lparr>first_name = first_name p, last_name = last_name p,
                  email = email p, dob = dob p, id_pk = next_rowid d\<rparr>])"
  by (simp add: create_student_new create_student_dup)

lemma create_student_keys:
  assumes "distinct (map id_pk d)"
  shows "distinct (map id_pk (snd (create_student p d)))"
  using assms next_rowid_notin [of d] by (simp add: snd_create_student)

lemma create_student_emails:
  assumes "distinct (map email d)"
  shows "distinct (map email (snd (create_student p d)))"
  using assms by (simp add: snd_create_student)

lemma snd_update_student:
  "snd (update_student i p d) = d
   \<or> email p \<notin> set (map email (filter (\<lambda>q. id_pk q \<noteq> i) d))
     \<and> snd (update_student i p d) =
         map (\<lambda>q. if id_pk q = i
                   then q\<lparr>first_name := first_name p, last_name := last_name p,
                          email := email p, dob := dob p\<rparr>
                   else q) d"
proof (cases "select_by_id d i")
  case None
  then show ?thesis
    by (simp add: update_student_def db_get_def)
next
  case (Some r)
  show ?thesis
  proof (cases "email p \<in> set (map email (filter (\<lambda>q. id_pk q \<noteq> i) d))")
    case True
    with Some have "update_student i p d = (Raised IntegrityError, d)"
      by (rule update_student_dup)
    then show ?thesis
      by simp
  next
    case False
    with Some show ?thesis
      by (simp add: update_student_ok)
  qed
qed

lemma update_student_keys: "map id_pk (snd (update_student i p d)) = map id_pk d"
proof -
  have "map id_pk (map (\<lambda>q. if id_pk q = i
                   then q\<lparr>first_name := first_name p, last_name := last_name p,
                          email := email p, dob := dob p\<rparr>
                   else q) d) = map id_pk d"
    by (induction d) simp_all
  with snd_update_student [of i p d] show ?thesis
    by auto
qed

lemma distinct_emails_after_update:
  assumes "distinct (map id_pk d)" and "distinct (map email d)"
    and "e \<notin> set (map email (filter (\<lambda>q. id_pk q \<noteq> i) d))"
  shows "distinct (map email
           (map (\<lambda>q. if id_pk q = i
                      then q\<lparr>first_name := f, last_name := l, email := e, dob := b\<rparr>
                      else q) d))"
  using assms
proof (induction d)
  case Nil
  then show ?case by simp
next
  case (Cons x xs)
  let ?u = "\<lambda>q. if id_pk q = i
                 then q\<lparr>first_name := f, last_name := l, email := e, dob := b\<rparr>
                 else q"
  from Cons.prems have ih: "distinct (map email (map ?u xs))"
    by (intro Cons.IH) (auto split: if_splits)
  show ?case
  proof (cases "id_pk x = i")
    case True
    with Cons.prems have "\<forall>q\<in>set xs. id_pk q \<noteq> i"
      by (metis distinct.simps(2) image_eqI list.simps(9) set_map)
    then have same: "map ?u xs = xs" and all: "filter (\<lambda>q. id_pk q \<noteq> i) xs = xs"
      by (simp_all add: map_idI)
    from Cons.prems(3) True all have "e \<notin> set (map email xs)"
      by simp
    with Cons.prems(2) True same show ?thesis
      by simp
  next
    case False
    with Cons.prems(3) have ne: "email x \<noteq> e" and rest: "e \<notin> set (map email (filter (\<lambda>q. id_pk q \<noteq> i) xs))"
      by auto
    from Cons.prems(2) have "email x \<notin> set (map email xs)"
      by simp
    with ne have "email x \<notin> set (map email (map ?u xs))"
      by (auto split: if_splits)
    with ih False show ?thesis
      by simp
  qed
qed

lemma update_student_emails:
  assumes "distinct (map id_pk d)" and "distinct (map email d)"
  shows "distinct (map email (snd (update_student i p d)))"
proof -
  let ?u = "\<lambda>q. if id_pk q = i
                 then q\<lparr>first_name := first_name p, last_name := last_name p,
                        email := email p, dob := dob p\<rparr>
                 else q"
  from snd_update_student [of i p d] show ?thesis
  proof
    assume "snd (update_student i p d) = d"
    with assms(2) show ?thesis
      by simp
  next
    assume a: "email p \<notin> set (map email (filter (\<lambda>q. id_pk q \<noteq> i) d))
             \<and> snd (update_student i p d) = map ?u d"
    then have "distinct (map email (map ?u d))"
      by (intro distinct_emails_after_update assms) (rule conjunct1)
    with a show ?thesis
      by (simp only:)
  qed
qed

lemma snd_delete_student:
  "snd (delete_student i d) = d \<or> snd (delete_student i d) = filter (\<lambda>q. id_pk q \<noteq> i) d"
  by (cases "select_by_id d i") (simp_all add: delete_student_def db_delete_def db_get_def)

lemma delete_student_keys:
  assumes "distinct (map id_pk d)"
  shows "distinct (map id_pk (snd (delete_student i d)))"
  using snd_delete_student [of i d] assms by (auto simp: distinct_map_filter)

lemma delete_student_emails:
  assumes "distinct (map email d)"
  shows "distinct (map email (snd (delete_student i d)))"
  using snd_delete_student [of i d] assms by (auto simp: distinct_map_filter)

lemma step_constraints:
  assumes "distinct (map id_pk d) \<and> distinct (map email d)"
  shows "distinct (map id_pk (step rq d)) \<and> distinct (map email (step rq d))"
proof (cases rq)
  case (Create p)
  with assms show ?thesis
    by (simp add: create_student_keys create_student_emails)
next
  case List
  with assms show ?thesis
    by (simp add: list_students_def)
next
  case (Get i)
  with assms show ?thesis
    by (simp add: get_student_def db_get_def split: option.splits)
next
  case (Update i p)
  with assms show ?thesis
    by (simp add: update_student_keys update_student_emails)
next
  case (Delete i)
  with assms show ?thesis
    by (simp add: delete_student_keys delete_student_emails)
qed

lemma run_constraints:
  assumes "distinct (map id_pk d) \<and> distinct (map email d)"
  shows "distinct (map id_pk (run rs d)) \<and> distinct (map email (run rs d))"
  using assms
proof (induction rs arbitrary: d)
  case Nil
  then show ?case
    by (simp add: run_def)
next
  case (Cons rq rs)
  from Cons.prems have "distinct (map id_pk (step rq d)) \<and> distinct (map email (step rq d))"
    by (rule step_constraints)
  then have "distinct (map id_pk (run rs (step rq d))) \<and> distinct (map email (run rs (step rq d)))"
    by (rule Cons.IH)
  then show ?case
    by (simp add: run_def)
qed

lemma reachable_constraints:
  "distinct (map id_pk (run rs [])) \<and> distinct (map email (run rs []))"
  by (rule run_constraints) simp

text \<open>
  C1. In every table that a sequence of requests produces from the empty table, the
  emails of the rows are pairwise different as strings. Create and Delete keep the
  emails of any table distinct, and so does Update on a table whose keys are distinct,
  as those of a table with a primary key are.
\<close>

theorem email_unique_invariant:
  "distinct (map email (run rs []))
   \<and> (\<forall>r\<in>set (run rs []). \<forall>q\<in>set (run rs []). r \<noteq> q \<longrightarrow> email r \<noteq> email q)
   \<and> (distinct (map email d) \<longrightarrow> distinct (map email (snd (create_student payload d))))
   \<and> (distinct (map id_pk d) \<and> distinct (map email d)
        \<longrightarrow> distinct (map email (snd (update_student i payload d))))
   \<and> (distinct (map email d) \<longrightarrow> distinct (map email (snd (delete_student i d))))"
proof -
  have e: "distinct (map email (run rs []))"
    using reachable_constraints [of rs] by simp
  then have "inj_on email (set (run rs []))"
    by (simp add: distinct_map)
  then have "\<forall>r\<in>set (run rs []). \<forall>q\<in>set (run rs []). r \<noteq> q \<longrightarrow> email r \<noteq> email q"
    by (auto dest: inj_onD)
  with e show ?thesis
    by (simp add: create_student_emails update_student_emails delete_student_emails)
qed

theorem email_unique_invariant_witness:
  "run [Create ada, Create grace, Update 1 (ada\<lparr>email := ''grace@example.com''\<rparr>)] [] =
     [\<lparr>first_name = ''Ada'', last_name = ''Lovelace'', email = ''ada@example.com'',
        dob = None, id_pk = 1\<rparr>,
      \<lparr>first_name = ''Grace'', last_name = ''Hopper'', email = ''grace@example.com'',
        dob = Some (Date 1906 12 9), id_pk = 2\<rparr>]
   \<and> distinct (map email
        (run [Create ada, Create grace, Update 1 (ada\<lparr>email := ''grace@example.com''\<rparr>)] []))
   \<and> distinct (map email
        (snd (update_student 1 (ada\<lparr>email := ''grace@example.com''\<rparr>)
           (run [Create ada, Create grace] []))))"
proof -
  let ?d = "run [Create ada, Create grace] []"
  let ?p = "ada\<lparr>email := ''grace@example.com''\<rparr>"
  have d: "?d = [\<lparr>first_name = ''Ada'', last_name = ''Lovelace'', email = ''ada@example.com'',
        dob = None, id_pk = 1\<rparr>,
      \<lparr>first_name = ''Grace'', last_name = ''Hopper'', email = ''grace@example.com'',
        dob = Some (Date 1906 12 9), id_pk = 2\<rparr>]"
    by (simp add: run_def handler_defs session_defs ada_def grace_def)
  have h: "distinct (map id_pk ?d) \<and> distinct (map email ?d)"
    unfolding d by simp
  have r: "run [Create ada, Create grace, Update 1 ?p] [] =
     [\<lparr>first_name = ''Ada'', last_name = ''Lovelace'', email = ''ada@example.com'',
        dob = None, id_pk = 1\<rparr>,
      \<lparr>first_name = ''Grace'', last_name = ''Hopper'', email = ''grace@example.com'',
        dob = Some (Date 1906 12 9), id_pk = 2\<rparr>]"
    by (simp add: run_def handler_defs session_defs ada_def grace_def)
  from email_unique_invariant [of "[Create ada, Create grace, Update 1 ?p]" ?d ?p 1]
  have "distinct (map email (run [Create ada, Create grace, Update 1 ?p] []))"
    and "distinct (map id_pk ?d) \<and> distinct (map email ?d)
        \<longrightarrow> distinct (map email (snd (update_student 1 ?p ?d)))"
    by blast+
  with h r show ?thesis
    by blast
qed

text \<open>
  C10. In every table that a sequence of requests produces from the empty table the
  keys of the rows are pairwise different, and the key of the row that a successful
  Create returns is the key of no row stored before it.
\<close>

theorem id_unique_and_fresh:
  "distinct (map id_pk (run rs []))
   \<and> (\<forall>c student d'. create_student payload d = (Response c student, d')
        \<longrightarrow> (\<forall>r\<in>set d. id_pk r \<noteq> id_pk student))"
proof -
  have "\<forall>r\<in>set d. id_pk r \<noteq> id_pk student"
    if "create_student payload d = (Response c student, d')" for c student d'
  proof (cases "email payload \<in> set (map email d)")
    case True
    then have "create_student payload d =
        (Raised (HTTPException 400 ''Email already registered''), d)"
      by (rule create_student_dup)
    with that show ?thesis
      by simp
  next
    case False
    then have "create_student payload d =
           (Response 201 \<lparr>first_name = first_name payload, last_name = last_name payload,
                           email = email payload, dob = dob payload, id_pk = next_rowid d\<rparr>,
            d @ [\<lparr>first_name = first_name payload, last_name = last_name payload,
                   email = email payload, dob = dob payload, id_pk = next_rowid d\<rparr>])"
      by (rule create_student_new)
    with that have "id_pk student = next_rowid d"
      by auto
    then show ?thesis
      using next_rowid_fresh [of _ d] by fastforce
  qed
  then show ?thesis
    using reachable_constraints [of rs] by blast
qed

theorem id_unique_and_fresh_witness:
  "create_student grace (run [Create ada, Create grace, Delete 2] []) =
     (Response 201 \<lparr>first_name = ''Grace'', last_name = ''Hopper'', email = ''grace@example.com'',
        dob = Some (Date 1906 12 9), id_pk = 2\<rparr>,
      run [Create ada, Create grace, Delete 2, Create grace] [])
   \<and> 2 \<notin> set (map id_pk (run [Create ada, Create grace, Delete 2] []))
   \<and> distinct (map id_pk (run [Create ada, Create grace, Delete 2, Create grace] []))"
proof -
  let ?d = "run [Create ada, Create grace, Delete 2] []"
  let ?s = "\<lparr>first_name = ''Grace'', last_name = ''Hopper'', email = ''grace@example.com'',
        dob = Some (Date 1906 12 9), id_pk = 2\<rparr>"
  have c: "create_student grace ?d =
     (Response 201 ?s, run [Create ada, Create grace, Delete 2, Create grace] [])"
    by (simp add: run_def handler_defs session_defs ada_def grace_def)
  from id_unique_and_fresh [of "[Create ada, Create grace, Delete 2, Create grace]" grace ?d]
  have k: "distinct (map id_pk (run [Create ada, Create grace, Delete 2, Create grace] []))"
    and f: "\<forall>c student d'. create_student grace ?d = (Response c student, d')
        \<longrightarrow> (\<forall>r\<in>set ?d. id_pk r \<noteq> id_pk student)"
    by blast+
  from f c have "\<forall>r\<in>set ?d. id_pk r \<noteq> id_pk ?s"
    by blast
  then have "2 \<notin> set (map id_pk ?d)"
    by auto
  with c k show ?thesis
    by blast
qed

subsection \<open>List\<close>

lemma run_Cons: "run (rq # rs) d = run rs (step rq d)"
  by (simp add: run_def)

lemma length_run_creates:
  assumes "distinct (map email ps)"
    and "set (map email ps) \<inter> set (map email d) = {}"
  shows "length (run (map Create ps) d) = length d + length ps"
  using assms
proof (induction ps arbitrary: d)
  case Nil
  then show ?case
    by (simp add: run_def)
next
  case (Cons p ps)
  let ?s = "\<lparr>first_name = first_name p, last_name = last_name p,
             email = email p, dob = dob p, id_pk = next_rowid d\<rparr>"
  from Cons.prems(2) have new: "email p \<notin> set (map email d)"
    by auto
  then have s: "step (Create p) d = d @ [?s]"
    by (simp add: snd_create_student)
  from Cons.prems have "set (map email ps) \<inter> set (map email (d @ [?s])) = {}"
    by auto
  moreover from Cons.prems(1) have "distinct (map email ps)"
    by simp
  ultimately have "length (run (map Create ps) (d @ [?s])) = length (d @ [?s]) + length ps"
    by (intro Cons.IH)
  with s show ?case
    by (simp add: run_Cons)
qed

text \<open>
  C8. After the creation, from the empty table, of N students whose emails are pairwise
  different, List answers 200 with N rows, and Get of the key of each of these rows
  answers with that row.
\<close>

theorem list_after_creates:
  assumes "distinct (map email ps)"
  shows "\<exists>rows. list_students (run (map Create ps) []) =
                  (Response 200 rows, run (map Create ps) [])
              \<and> length rows = length ps
              \<and> (\<forall>r\<in>set rows. get_student (id_pk r) (run (map Create ps) []) =
                                  (Response 200 r, run (map Create ps) []))"
proof -
  let ?d = "run (map Create ps) []"
  from assms have n: "length ?d = length ps"
    using length_run_creates [of ps "[]"] by simp
  have "distinct (map id_pk ?d)"
    using reachable_constraints [of "map Create ps"] by simp
  then have "\<forall>r\<in>set ?d. select_by_id ?d (id_pk r) = Some r"
    by (simp add: select_by_id_distinct)
  then have "\<forall>r\<in>set ?d. get_student (id_pk r) ?d = (Response 200 r, ?d)"
    by (auto intro: get_student_found)
  with n show ?thesis
    by (simp add: list_students_def)
qed

theorem list_after_creates_witness:
  "list_students (run (map Create [ada, grace]) []) =
     (Response 200
        [\<lparr>first_name = ''Ada'', last_name = ''Lovelace'', email = ''ada@example.com'',
           dob = None, id_pk = 1\<rparr>,
         \<lparr>first_name = ''Grace'', last_name = ''Hopper'', email = ''grace@example.com'',
           dob = Some (Date 1906 12 9), id_pk = 2\<rparr>],
      run (map Create [ada, grace]) [])
   \<and> get_student 2 (run (map Create [ada, grace]) []) =
     (Response 200 \<lparr>first_name = ''Grace'', last_name = ''Hopper'', email = ''grace@example.com'',
           dob = Some (Date 1906 12 9), id_pk = 2\<rparr>, run (map Create [ada, grace]) [])"
proof -
  let ?d = "run (map Create [ada, grace]) []"
  let ?g = "\<lparr>first_name = ''Grace'', last_name = ''Hopper'', email = ''grace@example.com'',
           dob = Some (Date 1906 12 9), id_pk = 2\<rparr>"
  have h: "distinct (map email [ada, grace])"
    by (simp add: ada_def grace_def)
  have d: "?d = [\<lparr>first_name = ''Ada'', last_name = ''Lovelace'', email = ''ada@example.com'',
           dob = None, id_pk = 1\<rparr>, ?g]"
    by (simp add: run_def handler_defs session_defs ada_def grace_def)
  from list_after_creates [OF h]
  obtain rows where l: "list_students ?d = (Response 200 rows, ?d)"
    and g: "\<forall>r\<in>set rows. get_student (id_pk r) ?d = (Response 200 r, ?d)"
    by blast
  from l have "rows = ?d"
    by (simp add: list_students_def)
  with d have rows: "rows = [\<lparr>first_name = ''Ada'', last_name = ''Lovelace'',
           email = ''ada@example.com'', dob = None, id_pk = 1\<rparr>, ?g]"
    by (simp only:)
  then have "?g \<in> set rows"
    by simp
  with g have "get_student (id_pk ?g) ?d = (Response 200 ?g, ?d)"
    by blast
  with l rows show ?thesis
    by simp
qed

end
